theory Spec2Isabelle
  imports Main
begin

section \<open>Python values and errors\<close>

text \<open>
  The attributes this code tests for truth hold either \<open>None\<close> or a string.  Such a
  value is \<open>string option\<close>; it is true in a boolean context when it is a non-empty
  string, as Python's truth test says.
\<close>

fun truthy :: "string option \<Rightarrow> bool" where
  "truthy None = False"
| "truthy (Some s) = (s \<noteq> [])"

text \<open>\<open>str(v)\<close> of such a value, as \<open>"{}".format(v)\<close> renders it.\<close>

fun str_value :: "string option \<Rightarrow> string" where
  "str_value None = ''None''"
| "str_value (Some s) = s"

text \<open>\<open>str(True)\<close> and \<open>str(False)\<close>, as \<open>"{}".format\<close> renders a bool.\<close>

definition str_bool :: "bool \<Rightarrow> string" where
  "str_bool b = (if b then ''True'' else ''False'')"

text \<open>\<open>str(n)\<close> of a non-negative integer: its decimal digits, most significant first.\<close>

definition digit :: "nat \<Rightarrow> char" where
  "digit d = ''0123456789'' ! d"

function str_nat :: "nat \<Rightarrow> string" where
  "str_nat n = (if n < 10 then [digit n] else str_nat (n div 10) @ [digit (n mod 10)])"
  by pat_completeness auto
termination
  by (relation "measure id") auto

declare str_nat.simps [simp del]

text \<open>
  The exceptions this code raises, and \<open>ClientError\<close> for any exception raised inside
  the wrapped client library.
\<close>

datatype error = AssertionError | KeyError | TypeError | AttributeError | ClientError

section \<open>Result tracking: \<^verbatim>\<open>sfmutils/result.py\<close>\<close>

subsection \<open>\<^verbatim>\<open>Msg\<close>\<close>

record Msg =
  code :: "string option"
  message :: "string option"

text \<open>
  \<^verbatim>\<open>Msg.__init__(self, code, message)\<close>: two \<^verbatim>\<open>assert\<close> statements, then the two
  assignments, which store the arguments as they are.  A failed assertion raises
  \<open>AssertionError\<close> (the interpreter runs without \<^verbatim>\<open>-O\<close>, which would strip the
  assertions).  The arguments are named \<open>c\<close> and \<open>m\<close> here.
\<close>

definition Msg_init :: "string option \<Rightarrow> string option \<Rightarrow> error + Msg" where
  "Msg_init c m =
     (if \<not> truthy c then Inl AssertionError
      else if \<not> truthy m then Inl AssertionError
      else Inr \<lparr>code = c, message = m\<rparr>)"

subsection \<open>\<^verbatim>\<open>BaseResult\<close>\<close>

text \<open>
  The timestamps \<open>started\<close> and \<open>ended\<close> are \<open>None\<close> or an object of a type \<open>'t\<close>
  left open (a \<^verbatim>\<open>datetime\<close>, a string, a number).  What this code does with such an
  attribute is to test it for truth and to render it with \<^verbatim>\<open>str\<close>; both are given for
  \<open>'t\<close> by the parameters \<open>true_ts\<close> and \<open>str_ts\<close>, and \<open>None\<close> is false and renders
  as \<^verbatim>\<open>None\<close>.
\<close>

definition value_true :: "('t \<Rightarrow> bool) \<Rightarrow> 't option \<Rightarrow> bool" where
  "value_true true_ts v = (case v of None \<Rightarrow> False | Some t \<Rightarrow> true_ts t)"

definition value_str :: "('t \<Rightarrow> string) \<Rightarrow> 't option \<Rightarrow> string" where
  "value_str str_ts v = (case v of None \<Rightarrow> ''None'' | Some t \<Rightarrow> str_ts t)"

text \<open>The truth test of a string, for timestamps kept as strings; \<^verbatim>\<open>str\<close> of a string is \<open>id\<close>.\<close>

definition str_true :: "string \<Rightarrow> bool" where
  "str_true s = (s \<noteq> [])"

record 't BaseResult =
  success :: bool
  started :: "'t option"
  ended :: "'t option"
  infos :: "Msg list"
  warnings :: "Msg list"
  errors :: "Msg list"

definition BaseResult_init :: "'t BaseResult" where
  "BaseResult_init =
     \<lparr>success = True, started = None, ended = None, infos = [], warnings = [], errors = []\<rparr>"

text \<open>\<^verbatim>\<open>__nonzero__\<close> returns the integer 1 or 0.\<close>

definition nonzero :: "'t BaseResult \<Rightarrow> int" where
  "nonzero self = (if success self then 1 else 0)"

text \<open>
  The truth test of an object, as the interpreter that runs this code (Python 3) performs
  it: the method \<^verbatim>\<open>__bool__\<close> of its class when the class defines one; otherwise
  \<^verbatim>\<open>__len__\<close>, compared with zero, when the class defines that; otherwise the object is
  true.  A method \<^verbatim>\<open>__nonzero__\<close> is not consulted.  \<^verbatim>\<open>BaseResult\<close> defines
  \<^verbatim>\<open>__nonzero__\<close> and neither of the other two.
\<close>

record 'o special_methods =
  bool_method :: "('o \<Rightarrow> bool) option"
  len_method :: "('o \<Rightarrow> nat) option"
  nonzero_method :: "('o \<Rightarrow> int) option"

definition truth_test :: "'o special_methods \<Rightarrow> 'o \<Rightarrow> bool" where
  "truth_test cls obj =
     (case bool_method cls of
        Some f \<Rightarrow> f obj
      | None \<Rightarrow> (case len_method cls of Some g \<Rightarrow> g obj \<noteq> 0 | None \<Rightarrow> True))"

definition BaseResult_class :: "'t BaseResult special_methods" where
  "BaseResult_class = \<lparr>bool_method = None, len_method = None, nonzero_method = Some nonzero\<rparr>"

definition truth_value :: "'t BaseResult \<Rightarrow> bool" where
  "truth_value self = truth_test BaseResult_class self"

text \<open>A result of a failed operation: the caller has set \<open>success\<close> to \<open>False\<close>.\<close>

definition failed_result :: "string BaseResult" where
  "failed_result = BaseResult_init\<lparr>success := False\<rparr>"

text \<open>The two methods a subclass overrides; in \<^verbatim>\<open>BaseResult\<close> both return the empty string.\<close>

definition result_name :: "'t BaseResult \<Rightarrow> string" where
  "result_name self = ''''"

definition addl_str :: "'t BaseResult \<Rightarrow> string" where
  "addl_str self = ''''"

text \<open>
  \<^verbatim>\<open>_str_messages(messages, name)\<close>.  The \<^verbatim>\<open>for\<close> loop over
  \<^verbatim>\<open>enumerate(messages, start=1)\<close> is \<open>str_messages_loop\<close>, which carries the index
  and the string built so far.
\<close>

fun str_messages_loop :: "nat \<Rightarrow> Msg list \<Rightarrow> string \<Rightarrow> string" where
  "str_messages_loop i [] msg_str = msg_str"
| "str_messages_loop i (msg # messages) msg_str =
     str_messages_loop (Suc i) messages
       (msg_str @ ''('' @ str_nat i @ '') ['' @ str_value (code msg) @ ''] '' @ str_value (message msg))"

definition str_messages :: "Msg list \<Rightarrow> string \<Rightarrow> string" where
  "str_messages messages name =
     (let msg_str = '''';
          msg_str = (if messages \<noteq> [] then msg_str @ '' '' @ name @ '' messages are:''
                     else msg_str)
      in str_messages_loop 1 messages msg_str)"

text \<open>
  \<^verbatim>\<open>__str__\<close>.  The overridable \<^verbatim>\<open>_result_name\<close> and \<^verbatim>\<open>_addl_str\<close> are the
  parameters \<open>name_of\<close> and \<open>trailer_of\<close>.  \<^verbatim>\<open>if self.started:\<close> is the truth test of
  the attribute, and \<^verbatim>\<open>"{}".format(self.started)\<close> its rendering by \<^verbatim>\<open>str\<close>.
\<close>

definition BaseResult_str ::
  "('t BaseResult \<Rightarrow> string) \<Rightarrow> ('t BaseResult \<Rightarrow> string) \<Rightarrow> ('t \<Rightarrow> bool) \<Rightarrow> ('t \<Rightarrow> string) \<Rightarrow>
   't BaseResult \<Rightarrow> string" where
  "BaseResult_str name_of trailer_of true_ts str_ts self =
     (let str_text = name_of self @ '' response is '' @ str_bool (success self) @ ''.'';
          str_text = (if value_true true_ts (started self)
                      then str_text @ '' Started: '' @ value_str str_ts (started self)
                      else str_text);
          str_text = (if value_true true_ts (ended self)
                      then str_text @ '' Ended: '' @ value_str str_ts (ended self)
                      else str_text);
          str_text = str_text @ str_messages (infos self) ''Informational'';
          str_text = str_text @ str_messages (warnings self) ''Warning'';
          str_text = str_text @ str_messages (errors self) ''Error'';
          str_text = str_text @ trailer_of self
      in str_text)"

text \<open>
  The summary as the specification words it, to be compared with \<open>BaseResult_str\<close>: an
  entry is \<^verbatim>\<open>(index) [code] message\<close>; a block is the heading of a severity followed by
  the entries of its list, numbered from 1, and nothing for an empty list; a timestamp is
  rendered when it is set to a value that is true; the summary is the status line, the
  rendered timestamps, the three blocks and the trailer.
\<close>

definition spec_entry :: "nat \<Rightarrow> Msg \<Rightarrow> string" where
  "spec_entry i msg = ''('' @ str_nat i @ '') ['' @ str_value (code msg) @ ''] '' @ str_value (message msg)"

definition spec_block :: "string \<Rightarrow> Msg list \<Rightarrow> string" where
  "spec_block name messages =
     (if messages = [] then ''''
      else '' '' @ name @ '' messages are:''
           @ concat (map2 spec_entry [1 ..< Suc (length messages)] messages))"

definition spec_timestamp ::
  "string \<Rightarrow> ('t \<Rightarrow> bool) \<Rightarrow> ('t \<Rightarrow> string) \<Rightarrow> 't option \<Rightarrow> string" where
  "spec_timestamp label true_ts str_ts ts =
     (case ts of
        None \<Rightarrow> ''''
      | Some t \<Rightarrow> if true_ts t then '' '' @ label @ '': '' @ str_ts t else '''')"

definition spec_summary ::
  "('t BaseResult \<Rightarrow> string) \<Rightarrow> ('t BaseResult \<Rightarrow> string) \<Rightarrow> ('t \<Rightarrow> bool) \<Rightarrow> ('t \<Rightarrow> string) \<Rightarrow>
   't BaseResult \<Rightarrow> string" where
  "spec_summary name_of trailer_of true_ts str_ts r =
     name_of r @ '' response is '' @ str_bool (success r) @ ''.''
     @ spec_timestamp ''Started'' true_ts str_ts (started r)
     @ spec_timestamp ''Ended'' true_ts str_ts (ended r)
     @ spec_block ''Informational'' (infos r)
     @ spec_block ''Warning'' (warnings r)
     @ spec_block ''Error'' (errors r)
     @ trailer_of r"

text \<open>
  The line-feed character, and the texts a summary renders: the result name, the trailer,
  the timestamps that are rendered, and the codes and messages of the three lists.
\<close>

definition line_feed :: char where
  "line_feed = CHR 0x0A"

definition msg_texts :: "Msg list \<Rightarrow> string list" where
  "msg_texts messages = concat (map (\<lambda>msg. [str_value (code msg), str_value (message msg)]) messages)"

definition timestamp_texts :: "('t \<Rightarrow> bool) \<Rightarrow> ('t \<Rightarrow> string) \<Rightarrow> 't option \<Rightarrow> string list" where
  "timestamp_texts true_ts str_ts ts =
     (case ts of None \<Rightarrow> [] | Some t \<Rightarrow> if true_ts t then [str_ts t] else [])"

definition rendered_texts ::
  "('t BaseResult \<Rightarrow> string) \<Rightarrow> ('t BaseResult \<Rightarrow> string) \<Rightarrow> ('t \<Rightarrow> bool) \<Rightarrow> ('t \<Rightarrow> string) \<Rightarrow>
   't BaseResult \<Rightarrow> string list" where
  "rendered_texts name_of trailer_of true_ts str_ts r =
     [name_of r, trailer_of r]
     @ timestamp_texts true_ts str_ts (started r)
     @ timestamp_texts true_ts str_ts (ended r)
     @ msg_texts (infos r) @ msg_texts (warnings r) @ msg_texts (errors r)"

text \<open>
  The result of the specification's example, with the one error
  \<^verbatim>\<open>Msg("E001", "disk full")\<close>; a result with an info, the same error, a start time and
  an end time set to the empty string; and a result whose one error message has two lines.
\<close>

definition disk_full_result :: "string BaseResult" where
  "disk_full_result = BaseResult_init\<lparr>errors := [\<lparr>code = Some ''E001'', message = Some ''disk full''\<rparr>]\<rparr>"

definition harvest_result :: "string BaseResult" where
  "harvest_result =
     \<lparr>success = False, started = Some ''2016-01-01'', ended = Some '''',
      infos = [\<lparr>code = Some ''I1'', message = Some ''ok''\<rparr>], warnings = [],
      errors = [\<lparr>code = Some ''E001'', message = Some ''disk full''\<rparr>]\<rparr>"

definition two_line_result :: "string BaseResult" where
  "two_line_result =
     BaseResult_init\<lparr>errors := [\<lparr>code = Some ''E002'',
                                  message = Some (''line1'' @ [line_feed] @ ''line2'')\<rparr>]\<rparr>"

section \<open>Message consumer: \<^verbatim>\<open>sfmutils/consumer.py\<close>\<close>

subsection \<open>The wrapped client library\<close>

text \<open>
  The module drives the \<^verbatim>\<open>kombu\<close> client.  Its objects are records of the attributes this
  code sets; an object whose identity matters (a channel, a cloned connection, a consumer,
  a producer) is named by a reference, a number that a constructor draws fresh.
\<close>

type_synonym ref = nat

record Exchange =
  name :: "string option"
  type :: string
  durable :: bool

record Queue =
  name :: string
  exchange :: Exchange
  channel :: ref
  durable :: bool

record Connection =
  transport :: string
  hostname :: "string option"
  userid :: "string option"
  password :: "string option"

text \<open>The one callback this module registers: the bound method \<^verbatim>\<open>self._callback\<close>.\<close>

datatype bound_method = Self_callback

record Consumer =
  ident :: ref
  queues :: "Queue list"
  callbacks :: "bound_method list"
  auto_declare :: bool

record Producer =
  ident :: ref
  channel :: ref

text \<open>
  A delivered message (\<^verbatim>\<open>message_obj\<close>): its delivery tag and its delivery metadata, a
  dictionary.
\<close>

record Message =
  delivery_tag :: nat
  delivery_info :: "string \<rightharpoonup> string"

text \<open>
  Every call into the client is a \<open>call\<close>.  The world keeps the calls that returned, oldest
  first, and the next fresh reference.  The client is a parameter: \<open>cl history c\<close> says
  whether the call \<open>c\<close> raises after the calls of \<open>history\<close>.  A call that raises leaves
  no entry.
\<close>

datatype call =
    Exchange_declare Exchange ref
  | Queue_declare Queue
  | Queue_bind_to Queue Exchange string
  | Consumer_init Consumer
  | Consumer_qos ref nat bool
  | Message_ack nat
  | Connection_clone Connection ref
  | Connection_ensure_connection ref
  | Connection_close ref
  | Producer_init ref ref

record world =
  calls :: "call list"
  next_ref :: ref

type_synonym client = "call list \<Rightarrow> call \<Rightarrow> bool"

definition invoke :: "client \<Rightarrow> call \<Rightarrow> world \<Rightarrow> error + world" where
  "invoke cl c w =
     (if cl (calls w) c then Inl ClientError else Inr (w\<lparr>calls := calls w @ [c]\<rparr>))"

definition new_ref :: "world \<Rightarrow> ref \<times> world" where
  "new_ref w = (next_ref w, w\<lparr>next_ref := Suc (next_ref w)\<rparr>)"

text \<open>A client on which no call raises, and a world in which nothing has happened.\<close>

definition reliable_client :: client where
  "reliable_client history c = False"

definition initial_world :: world where
  "initial_world = \<lparr>calls = [], next_ref = 0\<rparr>"

subsection \<open>\<^verbatim>\<open>MqConfig\<close> and the consumer object\<close>

text \<open>
  \<open>queues\<close> is the dictionary from queue names to lists of routing keys, as the list of
  its items (each name once, in the order \<^verbatim>\<open>items()\<close> yields them).
\<close>

record MqConfig =
  host :: "string option"
  username :: "string option"
  password :: "string option"
  exchange :: "string option"
  queues :: "(string \<times> string list) list"

text \<open>
  The attributes of a \<^verbatim>\<open>BaseConsumer\<close>.  \<open>producer_connection_attr\<close> is the attribute
  \<^verbatim>\<open>_producer_connection\<close> (\<open>None\<close> in the class), which refers to the cloned connection;
  the property \<^verbatim>\<open>producer_connection\<close> is the function of that name below.
\<close>

record 'm BaseConsumer =
  mq_config :: "MqConfig option"
  connection :: "Connection option"
  exchange :: "Exchange option"
  message :: "'m option"
  routing_key :: "string option"
  producer_connection_attr :: "ref option"

text \<open>\<^verbatim>\<open>BaseConsumer.__init__(self, mq_config=None)\<close>.  An \<^verbatim>\<open>MqConfig\<close> object is true.\<close>

definition BaseConsumer_init :: "MqConfig option \<Rightarrow> 'm BaseConsumer" where
  "BaseConsumer_init cfg =
     (case cfg of
        Some c \<Rightarrow>
          if truthy (host c) \<and> truthy (username c) \<and> truthy (MqConfig.password c) then
            \<lparr>mq_config = cfg,
             connection = Some \<lparr>transport = ''librabbitmq'', hostname = host c,
                                userid = username c, Connection.password = MqConfig.password c\<rparr>,
             BaseConsumer.exchange = Some \<lparr>Exchange.name = MqConfig.exchange c, type = ''topic'',
                                Exchange.durable = True\<rparr>,
             BaseConsumer.message = None, routing_key = None, producer_connection_attr = None\<rparr>
          else
            \<lparr>mq_config = cfg, connection = None, BaseConsumer.exchange = None,
             BaseConsumer.message = None, routing_key = None, producer_connection_attr = None\<rparr>
      | None \<Rightarrow>
          \<lparr>mq_config = cfg, connection = None, BaseConsumer.exchange = None,
           BaseConsumer.message = None, routing_key = None, producer_connection_attr = None\<rparr>)"

subsection \<open>\<^verbatim>\<open>ConsumerProducerMixin\<close>\<close>

text \<open>
  \<^verbatim>\<open>on_consume_end(self, connection, channel)\<close>; the two arguments are not used.  When
  \<^verbatim>\<open>close()\<close> raises, the assignment after it is not reached.
\<close>

definition on_consume_end ::
  "client \<Rightarrow> Connection option \<Rightarrow> ref \<Rightarrow> 'm BaseConsumer \<Rightarrow> world \<Rightarrow>
   (error + unit) \<times> 'm BaseConsumer \<times> world" where
  "on_consume_end cl conn ch self w =
     (case producer_connection_attr self of
        None \<Rightarrow> (Inr (), self, w)
      | Some r \<Rightarrow>
          (case invoke cl (Connection_close r) w of
             Inl e \<Rightarrow> (Inl e, self, w)
           | Inr w1 \<Rightarrow> (Inr (), self\<lparr>producer_connection_attr := None\<rparr>, w1)))"

text \<open>
  The property \<^verbatim>\<open>producer_connection\<close>.  \<^verbatim>\<open>self.connection.clone()\<close> on an instance
  without a connection is an attribute error of \<open>None\<close>.
\<close>

definition producer_connection ::
  "client \<Rightarrow> 'm BaseConsumer \<Rightarrow> world \<Rightarrow> (error + ref) \<times> 'm BaseConsumer \<times> world" where
  "producer_connection cl self w =
     (case producer_connection_attr self of
        Some r \<Rightarrow> (Inr r, self, w)
      | None \<Rightarrow>
          (case connection self of
             None \<Rightarrow> (Inl AttributeError, self, w)
           | Some c \<Rightarrow>
               (case new_ref w of (conn, w1) \<Rightarrow>
                  (case invoke cl (Connection_clone c conn) w1 of
                     Inl e \<Rightarrow> (Inl e, self, w1)
                   | Inr w2 \<Rightarrow>
                       (case invoke cl (Connection_ensure_connection conn) w2 of
                          Inl e \<Rightarrow> (Inl e, self, w2)
                        | Inr w3 \<Rightarrow>
                            (Inr conn, self\<lparr>producer_connection_attr := Some conn\<rparr>, w3))))))"

text \<open>The property \<^verbatim>\<open>producer\<close>: \<^verbatim>\<open>Producer(self.producer_connection)\<close>.\<close>

definition producer ::
  "client \<Rightarrow> 'm BaseConsumer \<Rightarrow> world \<Rightarrow> (error + Producer) \<times> 'm BaseConsumer \<times> world" where
  "producer cl self w =
     (case producer_connection cl self w of
        (Inl e, self1, w1) \<Rightarrow> (Inl e, self1, w1)
      | (Inr conn, self1, w1) \<Rightarrow>
          (case new_ref w1 of (p, w2) \<Rightarrow>
             (case invoke cl (Producer_init p conn) w2 of
                Inl e \<Rightarrow> (Inl e, self1, w2)
              | Inr w3 \<Rightarrow> (Inr \<lparr>Producer.ident = p, Producer.channel = conn\<rparr>, self1, w3))))"

subsection \<open>\<^verbatim>\<open>BaseConsumer\<close>\<close>

text \<open>
  \<^verbatim>\<open>get_consumers(self, Consumer, channel)\<close>.  The inner loop over the routing keys of one
  queue is \<open>bind_routing_keys\<close>; the loop over the items of \<^verbatim>\<open>mq_config.queues\<close>, which
  appends each queue to the list \<open>qs\<close>, is \<open>declare_queues\<close>.  The logging calls have no
  effect on the state.  \<^verbatim>\<open>self.exchange(channel)\<close> on an instance whose exchange is
  \<open>None\<close> is a type error.  The factory \<^verbatim>\<open>Consumer\<close> is the client's.
\<close>

fun bind_routing_keys ::
  "client \<Rightarrow> Queue \<Rightarrow> Exchange \<Rightarrow> string list \<Rightarrow> world \<Rightarrow> (error + unit) \<times> world" where
  "bind_routing_keys cl queue ex [] w = (Inr (), w)"
| "bind_routing_keys cl queue ex (rk # routing_keys) w =
     (case invoke cl (Queue_bind_to queue ex rk) w of
        Inl e \<Rightarrow> (Inl e, w)
      | Inr w1 \<Rightarrow> bind_routing_keys cl queue ex routing_keys w1)"

fun declare_queues ::
  "client \<Rightarrow> Exchange \<Rightarrow> ref \<Rightarrow> (string \<times> string list) list \<Rightarrow> Queue list \<Rightarrow> world \<Rightarrow>
   (error + Queue list) \<times> world" where
  "declare_queues cl ex ch [] qs w = (Inr qs, w)"
| "declare_queues cl ex ch ((queue_name, routing_keys) # items) qs w =
     (let queue = \<lparr>Queue.name = queue_name, Queue.exchange = ex, Queue.channel = ch,
                   Queue.durable = True\<rparr>
      in case invoke cl (Queue_declare queue) w of
           Inl e \<Rightarrow> (Inl e, w)
         | Inr w1 \<Rightarrow>
             (case bind_routing_keys cl queue ex routing_keys w1 of
                (Inl e, w2) \<Rightarrow> (Inl e, w2)
              | (Inr u, w2) \<Rightarrow> declare_queues cl ex ch items (qs @ [queue]) w2))"

definition get_consumers ::
  "client \<Rightarrow> ref \<Rightarrow> 'm BaseConsumer \<Rightarrow> world \<Rightarrow> (error + Consumer list) \<times> world" where
  "get_consumers cl ch self w =
     (case mq_config self of
        None \<Rightarrow> (Inl AssertionError, w)
      | Some cfg \<Rightarrow>
          (case BaseConsumer.exchange self of
             None \<Rightarrow> (Inl TypeError, w)
           | Some ex \<Rightarrow>
               (case invoke cl (Exchange_declare ex ch) w of
                  Inl e \<Rightarrow> (Inl e, w)
                | Inr w1 \<Rightarrow>
                    (case declare_queues cl ex ch (MqConfig.queues cfg) [] w1 of
                       (Inl e, w2) \<Rightarrow> (Inl e, w2)
                     | (Inr qs, w2) \<Rightarrow>
                         (case new_ref w2 of (c, w3) \<Rightarrow>
                            (let consumer = \<lparr>Consumer.ident = c, Consumer.queues = qs,
                                              callbacks = [Self_callback], auto_declare = False\<rparr>
                             in case invoke cl (Consumer_init consumer) w3 of
                                  Inl e \<Rightarrow> (Inl e, w3)
                                | Inr w4 \<Rightarrow>
                                    (case invoke cl (Consumer_qos c 1 True) w4 of
                                       Inl e \<Rightarrow> (Inl e, w4)
                                     | Inr w5 \<Rightarrow> (Inr [consumer], w5))))))))"

text \<open>
  \<^verbatim>\<open>_callback(self, message, message_obj)\<close>, with the overridable \<^verbatim>\<open>on_message\<close> as the
  parameter \<open>hook\<close>; the argument \<^verbatim>\<open>message\<close> is named \<open>msg\<close>.  A missing key of
  \<^verbatim>\<open>delivery_info\<close> is a key error.
\<close>

type_synonym 'm hook =
  "'m BaseConsumer \<Rightarrow> world \<Rightarrow> (error + unit) \<times> 'm BaseConsumer \<times> world"

definition callback ::
  "client \<Rightarrow> 'm hook \<Rightarrow> 'm \<Rightarrow> Message \<Rightarrow> 'm BaseConsumer \<Rightarrow> world \<Rightarrow>
   (error + unit) \<times> 'm BaseConsumer \<times> world" where
  "callback cl hook msg message_obj self w =
     (case delivery_info message_obj ''routing_key'' of
        None \<Rightarrow> (Inl KeyError, self, w)
      | Some rk \<Rightarrow>
          (let self1 = self\<lparr>routing_key := Some rk\<rparr>;
               self2 = self1\<lparr>BaseConsumer.message := Some msg\<rparr>
           in case invoke cl (Message_ack (delivery_tag message_obj)) w of
                Inl e \<Rightarrow> (Inl e, self2, w)
              | Inr w1 \<Rightarrow> hook self2 w1))"

text \<open>\<^verbatim>\<open>on_message(self)\<close> of the base class: \<^verbatim>\<open>pass\<close>.\<close>

definition on_message :: "'m hook" where
  "on_message self w = (Inr (), self, w)"

text \<open>A hook that raises at once, as an overriding \<^verbatim>\<open>on_message\<close> may.\<close>

definition raising_hook :: "'m hook" where
  "raising_hook self w = (Inl TypeError, self, w)"

subsection \<open>What a run of \<^verbatim>\<open>get_consumers\<close> did\<close>

text \<open>
  The calls made between two worlds, the queues declared and the bindings declared among
  a list of calls, and the queue object the code builds for a name.
\<close>

definition calls_since :: "world \<Rightarrow> world \<Rightarrow> call list" where
  "calls_since w w' = drop (length (calls w)) (calls w')"

fun declared_queue :: "call \<Rightarrow> Queue list" where
  "declared_queue (Queue_declare q) = [q]"
| "declared_queue c = []"

fun declared_binding :: "call \<Rightarrow> (Queue \<times> Exchange \<times> string) list" where
  "declared_binding (Queue_bind_to q ex rk) = [(q, ex, rk)]"
| "declared_binding c = []"

fun created_consumer :: "call \<Rightarrow> Consumer list" where
  "created_consumer (Consumer_init c) = [c]"
| "created_consumer c = []"

fun qos_setting :: "call \<Rightarrow> (ref \<times> nat \<times> bool) list" where
  "qos_setting (Consumer_qos c prefetch_count apply_global) = [(c, prefetch_count, apply_global)]"
| "qos_setting c = []"

definition declared_queues :: "call list \<Rightarrow> Queue list" where
  "declared_queues cs = concat (map declared_queue cs)"

definition declared_bindings :: "call list \<Rightarrow> (Queue \<times> Exchange \<times> string) list" where
  "declared_bindings cs = concat (map declared_binding cs)"

definition created_consumers :: "call list \<Rightarrow> Consumer list" where
  "created_consumers cs = concat (map created_consumer cs)"

definition qos_settings :: "call list \<Rightarrow> (ref \<times> nat \<times> bool) list" where
  "qos_settings cs = concat (map qos_setting cs)"

definition queue_of :: "Exchange \<Rightarrow> ref \<Rightarrow> string \<Rightarrow> Queue" where
  "queue_of ex ch queue_name =
     \<lparr>Queue.name = queue_name, Queue.exchange = ex, Queue.channel = ch, Queue.durable = True\<rparr>"

text \<open>The calls one item of the queue configuration stands for: a declaration, then the bindings.\<close>

definition queue_calls :: "Exchange \<Rightarrow> ref \<Rightarrow> string \<times> string list \<Rightarrow> call list" where
  "queue_calls ex ch item =
     Queue_declare (queue_of ex ch (fst item))
     # map (Queue_bind_to (queue_of ex ch (fst item)) ex) (snd item)"

text \<open>
  The pairs of a queue configuration, in order, and its validity: a dictionary has each
  queue name once, and the routing keys of a queue form a set, none listed twice.
\<close>

definition listed_pairs :: "(string \<times> string list) list \<Rightarrow> (string \<times> string) list" where
  "listed_pairs items = concat (map (\<lambda>(queue_name, routing_keys). map (Pair queue_name) routing_keys) items)"

definition valid_queues :: "(string \<times> string list) list \<Rightarrow> bool" where
  "valid_queues items =
     (distinct (map fst items) \<and> list_all (\<lambda>(queue_name, routing_keys). distinct routing_keys) items)"

text \<open>The consumer object a run of \<^verbatim>\<open>get_consumers\<close> builds in the world \<open>w\<close>.\<close>

definition the_consumer :: "Exchange \<Rightarrow> ref \<Rightarrow> MqConfig \<Rightarrow> world \<Rightarrow> Consumer" where
  "the_consumer ex ch cfg w =
     \<lparr>Consumer.ident = next_ref w,
      Consumer.queues = map (queue_of ex ch) (map fst (MqConfig.queues cfg)),
      callbacks = [Self_callback], auto_declare = False\<rparr>"

text \<open>A complete configuration, the consumer constructed from it, and a delivered message.\<close>

definition example_config :: MqConfig where
  "example_config =
     \<lparr>host = Some ''mq'', username = Some ''sfm_user'', MqConfig.password = Some ''secret'',
      MqConfig.exchange = Some ''sfm_exchange'',
      MqConfig.queues = [(''harvester'', [''harvest.start.twitter'', ''harvest.stop.twitter'']),
                         (''exporter'', [''export.start.#''])]\<rparr>"

definition example_consumer :: "string BaseConsumer" where
  "example_consumer = BaseConsumer_init (Some example_config)"

definition example_connection :: Connection where
  "example_connection =
     \<lparr>transport = ''librabbitmq'', hostname = Some ''mq'', userid = Some ''sfm_user'',
      Connection.password = Some ''secret''\<rparr>"

definition example_exchange :: Exchange where
  "example_exchange = \<lparr>Exchange.name = Some ''sfm_exchange'', type = ''topic'', Exchange.durable = True\<rparr>"

definition example_message :: Message where
  "example_message =
     \<lparr>delivery_tag = 7, delivery_info = [''routing_key'' \<mapsto> ''harvest.start.twitter'']\<rparr>"

section \<open>Properties of result tracking\<close>

subsection \<open>Truth value of a result\<close>

text \<open>
  C1. The claim is that the truth value of a \<^verbatim>\<open>BaseResult\<close> in a boolean context is its
  \<open>success\<close> flag.  The code does not achieve it: for the result with \<open>success\<close> set to
  \<open>False\<close>, \<^verbatim>\<open>__nonzero__\<close> would return 0, but the truth test does not consult it and
  finds the result true.
\<close>

theorem truth_value_of_failed_result:
  "\<not> success failed_result \<and> nonzero failed_result = 0 \<and> truth_value failed_result"
  by (simp add: failed_result_def BaseResult_init_def nonzero_def truth_value_def truth_test_def
      BaseResult_class_def)

lemma truth_value_always: "truth_value r"
  by (simp add: truth_value_def truth_test_def BaseResult_class_def)

subsection \<open>Construction of a message\<close>

text \<open>
  C8. Constructing a \<^verbatim>\<open>Msg\<close> fails, with an assertion error, exactly when the code or
  the message text is absent or empty; every \<^verbatim>\<open>Msg\<close> that is constructed carries the
  code and the text it was given, both non-empty.
\<close>

theorem Msg_init_rejects_empty:
  "(Msg_init c m = Inl AssertionError) = (c = None \<or> c = Some '''' \<or> m = None \<or> m = Some '''')
   \<and> (\<forall>x. Msg_init c m = Inr x \<longrightarrow>
          (\<exists>c' m'. code x = Some c' \<and> c' \<noteq> '''' \<and> Msg.message x = Some m' \<and> m' \<noteq> ''''
                   \<and> c = Some c' \<and> m = Some m'))"
  by (cases c; cases m) (auto simp: Msg_init_def)

theorem Msg_init_rejects_empty_witness:
  "Msg_init (Some ''E001'') (Some ''disk full'') = Inr \<lparr>code = Some ''E001'', Msg.message = Some ''disk full''\<rparr>
   \<and> Msg_init (Some ''E001'') (Some '''') = Inl AssertionError
   \<and> Msg_init None (Some ''disk full'') = Inl AssertionError"
  using Msg_init_rejects_empty [of "Some ''E001''" "Some ''disk full''"]
    Msg_init_rejects_empty [of "Some ''E001''" "Some ''''"]
    Msg_init_rejects_empty [of None "Some ''disk full''"]
  by (simp add: Msg_init_def)

subsection \<open>The rendered summary\<close>

lemma str_messages_loop_eq:
  "str_messages_loop i messages msg_str =
     msg_str @ concat (map2 spec_entry [i ..< i + length messages] messages)"
proof (induction messages arbitrary: i msg_str)
  case Nil
  show ?case by simp
next
  case (Cons msg messages)
  have "[i ..< i + Suc (length messages)] = i # [Suc i ..< i + Suc (length messages)]"
    by (rule upt_conv_Cons) simp
  then show ?case
    by (simp add: Cons.IH spec_entry_def)
qed

lemma str_messages_eq: "str_messages messages label = spec_block label messages"
  by (simp add: str_messages_def spec_block_def str_messages_loop_eq)

lemma BaseResult_str_eq:
  "BaseResult_str name_of trailer_of true_ts str_ts r =
     spec_summary name_of trailer_of true_ts str_ts r"
  by (simp add: BaseResult_str_def spec_summary_def spec_timestamp_def value_true_def
      value_str_def str_messages_eq Let_def split: option.splits)

lemma digit_not_line_feed: "d < 10 \<Longrightarrow> digit d \<noteq> line_feed"
proof -
  assume "d < 10"
  then have "d \<in> {0, 1, 2, 3, 4, 5, 6, 7, 8, 9}" by auto
  then show ?thesis by (auto simp: digit_def line_feed_def)
qed

lemma str_nat_no_line_feed: "line_feed \<notin> set (str_nat n)"
proof (induction n rule: str_nat.induct)
  case (1 n)
  show ?case
  proof (cases "n < 10")
    case True
    then show ?thesis using digit_not_line_feed [of n] by (simp add: str_nat.simps [of n])
  next
    case False
    moreover have "n mod 10 < 10" by simp
    ultimately show ?thesis
      using "1.IH" digit_not_line_feed [of "n mod 10"] by (simp add: str_nat.simps [of n])
  qed
qed

lemma str_nat_1: "str_nat (Suc 0) = ''1''"
  by (simp add: str_nat.simps [of "Suc 0"] digit_def)

lemma str_bool_no_line_feed: "line_feed \<notin> set (str_bool b)"
  by (simp add: str_bool_def line_feed_def)

lemma spec_entry_line_feed:
  "(line_feed \<in> set (spec_entry i msg)) =
     (line_feed \<in> set (str_value (code msg)) \<or> line_feed \<in> set (str_value (Msg.message msg)))"
proof -
  have "line_feed \<notin> set ''(''" "line_feed \<notin> set '') [''" "line_feed \<notin> set ''] ''"
    by (simp_all add: line_feed_def)
  then show ?thesis
    unfolding spec_entry_def by (simp add: str_nat_no_line_feed)
qed

lemma msg_texts_Cons:
  "msg_texts (msg # messages) =
     str_value (code msg) # str_value (Msg.message msg) # msg_texts messages"
  by (simp add: msg_texts_def)

lemma spec_entries_line_feed:
  "length ns = length messages \<Longrightarrow>
   (line_feed \<in> set (concat (map2 spec_entry ns messages))) =
     (\<exists>t \<in> set (msg_texts messages). line_feed \<in> set t)"
proof (induction messages arbitrary: ns)
  case Nil
  show ?case by (simp add: msg_texts_def)
next
  case (Cons msg messages)
  from Cons.prems obtain i ns' where ns: "ns = i # ns'" and len: "length ns' = length messages"
    by (cases ns) simp_all
  have "concat (map2 spec_entry ns (msg # messages)) =
      spec_entry i msg @ concat (map2 spec_entry ns' messages)"
    unfolding ns by simp
  then have "(line_feed \<in> set (concat (map2 spec_entry ns (msg # messages)))) =
      (line_feed \<in> set (spec_entry i msg)
       \<or> line_feed \<in> set (concat (map2 spec_entry ns' messages)))"
    by (simp only: set_append Un_iff)
  also have "\<dots> = ((line_feed \<in> set (str_value (code msg))
        \<or> line_feed \<in> set (str_value (Msg.message msg)))
       \<or> (\<exists>t \<in> set (msg_texts messages). line_feed \<in> set t))"
    by (simp only: spec_entry_line_feed Cons.IH [OF len])
  also have "\<dots> = (\<exists>t \<in> set (msg_texts (msg # messages)). line_feed \<in> set t)"
    by (simp add: msg_texts_Cons)
  finally show ?case .
qed

lemma spec_block_line_feed:
  assumes "line_feed \<notin> set label"
  shows "(line_feed \<in> set (spec_block label messages)) =
     (\<exists>t \<in> set (msg_texts messages). line_feed \<in> set t)"
proof (cases "messages = []")
  case True
  then show ?thesis by (simp add: spec_block_def msg_texts_def)
next
  case False
  have fixed: "line_feed \<notin> set '' ''" "line_feed \<notin> set '' messages are:''"
    by (simp_all add: line_feed_def)
  have "length [1 ..< Suc (length messages)] = length messages"
    by (simp del: upt_Suc)
  from spec_entries_line_feed [OF this] False assms fixed show ?thesis
    unfolding spec_block_def by (simp del: upt_Suc)
qed

lemma spec_timestamp_line_feed:
  assumes "line_feed \<notin> set label"
  shows "(line_feed \<in> set (spec_timestamp label true_ts str_ts ts)) =
     (\<exists>t \<in> set (timestamp_texts true_ts str_ts ts). line_feed \<in> set t)"
proof -
  have fixed: "line_feed \<notin> set '' ''" "line_feed \<notin> set '': ''"
    by (simp_all add: line_feed_def)
  with assms show ?thesis
    by (cases ts) (simp_all add: spec_timestamp_def timestamp_texts_def)
qed

lemma spec_summary_line_feed:
  "(line_feed \<in> set (spec_summary name_of trailer_of true_ts str_ts r)) =
     (\<exists>t \<in> set (rendered_texts name_of trailer_of true_ts str_ts r). line_feed \<in> set t)"
proof -
  have labels: "line_feed \<notin> set ''Started''" "line_feed \<notin> set ''Ended''"
    "line_feed \<notin> set ''Informational''" "line_feed \<notin> set ''Warning''"
    "line_feed \<notin> set ''Error''"
    by (simp_all add: line_feed_def)
  have fixed: "line_feed \<notin> set '' response is ''" "line_feed \<notin> set ''.''"
    by (simp_all add: line_feed_def)
  note parts = spec_timestamp_line_feed [OF labels(1)] spec_timestamp_line_feed [OF labels(2)]
    spec_block_line_feed [OF labels(3)] spec_block_line_feed [OF labels(4)]
    spec_block_line_feed [OF labels(5)]
  show ?thesis
    unfolding spec_summary_def rendered_texts_def
    using fixed str_bool_no_line_feed [of "success r"]
    by (simp add: parts) blast
qed

lemma disk_full_block:
  "spec_block ''Error'' [\<lparr>code = Some ''E001'', Msg.message = Some ''disk full''\<rparr>] =
     '' Error messages are:(1) [E001] disk full''"
  by (simp add: spec_block_def spec_entry_def str_nat_1)

lemma spec_block_Nil: "spec_block label [] = []"
  by (simp add: spec_block_def)

text \<open>
  C9, the claim as stated, fails: the summary is not multi-line.  The result with the one
  error \<^verbatim>\<open>Msg("E001", "disk full")\<close> renders as a single line, with no line feed.
\<close>

theorem BaseResult_str_multi_line_counterexample:
  "BaseResult_str result_name addl_str str_true id disk_full_result =
     '' response is True. Error messages are:(1) [E001] disk full''
   \<and> line_feed \<notin> set (BaseResult_str result_name addl_str str_true id disk_full_result)"
  by (simp add: BaseResult_str_eq spec_summary_def spec_timestamp_def disk_full_result_def
      BaseResult_init_def result_name_def addl_str_def str_bool_def disk_full_block
      spec_block_Nil line_feed_def)

text \<open>
  C9, amended. For every \<^verbatim>\<open>BaseResult\<close>, \<^verbatim>\<open>__str__\<close> renders the summary of the
  specification: the status line with the result name and the success value, the start
  and end timestamps only when set (each exactly when it is true in a boolean context),
  each non-empty message list as a heading followed by its entries
  \<^verbatim>\<open>(index) [code] message\<close> numbered from 1 in list order, in the order info, warning,
  error, then the trailer.  The formatting adds no line break of its own: the summary holds
  a line feed exactly when one of the rendered texts (the result name, the trailer, a
  rendered timestamp, a code or a message) holds one, and is a single line otherwise.  With
  the one error \<^verbatim>\<open>Msg("E001", "disk full")\<close>, the summary ends with the error block
  \<^verbatim>\<open> Error messages are:(1) [E001] disk full\<close> and the trailer, after the info and
  warning blocks.
\<close>

theorem BaseResult_str_summary:
  "BaseResult_str name_of trailer_of true_ts str_ts r =
     spec_summary name_of trailer_of true_ts str_ts r
   \<and> (line_feed \<in> set (BaseResult_str name_of trailer_of true_ts str_ts r)) =
       (\<exists>t \<in> set (rendered_texts name_of trailer_of true_ts str_ts r). line_feed \<in> set t)
   \<and> (errors r = [\<lparr>code = Some ''E001'', Msg.message = Some ''disk full''\<rparr>] \<longrightarrow>
        BaseResult_str name_of trailer_of true_ts str_ts r =
          (name_of r @ '' response is '' @ str_bool (success r) @ ''.''
           @ spec_timestamp ''Started'' true_ts str_ts (started r)
           @ spec_timestamp ''Ended'' true_ts str_ts (ended r)
           @ spec_block ''Informational'' (infos r)
           @ spec_block ''Warning'' (warnings r))
          @ '' Error messages are:(1) [E001] disk full'' @ trailer_of r)"
proof (intro conjI impI)
  show "BaseResult_str name_of trailer_of true_ts str_ts r =
      spec_summary name_of trailer_of true_ts str_ts r"
    by (rule BaseResult_str_eq)
next
  show "(line_feed \<in> set (BaseResult_str name_of trailer_of true_ts str_ts r)) =
       (\<exists>t \<in> set (rendered_texts name_of trailer_of true_ts str_ts r). line_feed \<in> set t)"
    unfolding BaseResult_str_eq by (rule spec_summary_line_feed)
next
  assume "errors r = [\<lparr>code = Some ''E001'', Msg.message = Some ''disk full''\<rparr>]"
  then show "BaseResult_str name_of trailer_of true_ts str_ts r =
          (name_of r @ '' response is '' @ str_bool (success r) @ ''.''
           @ spec_timestamp ''Started'' true_ts str_ts (started r)
           @ spec_timestamp ''Ended'' true_ts str_ts (ended r)
           @ spec_block ''Informational'' (infos r)
           @ spec_block ''Warning'' (warnings r))
          @ '' Error messages are:(1) [E001] disk full'' @ trailer_of r"
    by (simp only: BaseResult_str_eq spec_summary_def disk_full_block append_assoc)
qed

theorem BaseResult_str_summary_witness:
  "BaseResult_str result_name addl_str str_true id harvest_result =
     '' response is False. Started: 2016-01-01 Informational messages are:(1) [I1] ok Error messages are:(1) [E001] disk full''
   \<and> line_feed \<notin> set (BaseResult_str result_name addl_str str_true id harvest_result)
   \<and> line_feed \<in> set (BaseResult_str result_name addl_str str_true id two_line_result)"
proof -
  have errs: "errors harvest_result = [\<lparr>code = Some ''E001'', Msg.message = Some ''disk full''\<rparr>]"
    by (simp add: harvest_result_def)
  have block: "spec_block ''Informational'' [\<lparr>code = Some ''I1'', Msg.message = Some ''ok''\<rparr>] =
      '' Informational messages are:(1) [I1] ok''"
    by (simp add: spec_block_def spec_entry_def str_nat_1)
  have none: "\<not> (\<exists>t \<in> set (rendered_texts result_name addl_str str_true id harvest_result).
      line_feed \<in> set t)"
    by (simp add: rendered_texts_def timestamp_texts_def msg_texts_def harvest_result_def
        result_name_def addl_str_def str_true_def line_feed_def)
  have some: "\<exists>t \<in> set (rendered_texts result_name addl_str str_true id two_line_result).
      line_feed \<in> set t"
    by (simp add: rendered_texts_def timestamp_texts_def msg_texts_def two_line_result_def
        BaseResult_init_def)
  from BaseResult_str_summary [of result_name addl_str str_true id harvest_result] errs none
  have rendering: "BaseResult_str result_name addl_str str_true id harvest_result =
          (result_name harvest_result @ '' response is '' @ str_bool (success harvest_result) @ ''.''
           @ spec_timestamp ''Started'' str_true id (started harvest_result)
           @ spec_timestamp ''Ended'' str_true id (ended harvest_result)
           @ spec_block ''Informational'' (infos harvest_result)
           @ spec_block ''Warning'' (warnings harvest_result))
          @ '' Error messages are:(1) [E001] disk full'' @ addl_str harvest_result"
    and one_line: "line_feed \<notin> set (BaseResult_str result_name addl_str str_true id harvest_result)"
    by blast+
  from BaseResult_str_summary [of result_name addl_str str_true id two_line_result] some
  have two_lines: "line_feed \<in> set (BaseResult_str result_name addl_str str_true id two_line_result)"
    by blast
  from rendering have "BaseResult_str result_name addl_str str_true id harvest_result =
     '' response is False. Started: 2016-01-01 Informational messages are:(1) [I1] ok Error messages are:(1) [E001] disk full''"
    by (simp add: harvest_result_def result_name_def addl_str_def str_bool_def spec_timestamp_def
        str_true_def block spec_block_Nil)
  with one_line two_lines show ?thesis by blast
qed

section \<open>Properties of the message consumer\<close>

subsection \<open>Calls into the client\<close>

lemma invoke_Inr: "invoke cl c w = Inr w' \<Longrightarrow> w' = w\<lparr>calls := calls w @ [c]\<rparr>"
  by (simp add: invoke_def split: if_splits)

lemma invoke_ok: "\<not> cl (calls w) c \<Longrightarrow> invoke cl c w = Inr (w\<lparr>calls := calls w @ [c]\<rparr>)"
  by (simp add: invoke_def)

lemma invoke_raises: "cl (calls w) c \<Longrightarrow> invoke cl c w = Inl ClientError"
  by (simp add: invoke_def)

lemma bind_routing_keys_Inr:
  "bind_routing_keys cl q ex rks w = (Inr u, w') \<Longrightarrow>
   calls w' = calls w @ map (Queue_bind_to q ex) rks \<and> next_ref w' = next_ref w"
proof (induction rks arbitrary: w)
  case Nil
  then show ?case by simp
next
  case (Cons rk rks)
  from Cons.prems obtain w1 where
    w1: "invoke cl (Queue_bind_to q ex rk) w = Inr w1"
    and rest: "bind_routing_keys cl q ex rks w1 = (Inr u, w')"
    by (auto split: sum.splits)
  from invoke_Inr [OF w1] Cons.IH [OF rest] show ?case by simp
qed

lemma bind_routing_keys_returns:
  "\<forall>h c. \<not> cl h c \<Longrightarrow> \<exists>w'. bind_routing_keys cl q ex rks w = (Inr (), w')"
  by (induction rks arbitrary: w) (simp_all add: invoke_def)

lemma declare_queues_Inr:
  "declare_queues cl ex ch items qs w = (Inr qs', w') \<Longrightarrow>
   qs' = qs @ map (queue_of ex ch) (map fst items)
   \<and> calls w' = calls w @ concat (map (queue_calls ex ch) items)
   \<and> next_ref w' = next_ref w"
proof (induction items arbitrary: qs w)
  case Nil
  then show ?case by simp
next
  case (Cons item items)
  obtain queue_name routing_keys where item: "item = (queue_name, routing_keys)"
    by (cases item)
  let ?q = "queue_of ex ch queue_name"
  from Cons.prems item obtain w1 w2 u where
    w1: "invoke cl (Queue_declare ?q) w = Inr w1"
    and w2: "bind_routing_keys cl ?q ex routing_keys w1 = (Inr u, w2)"
    and rest: "declare_queues cl ex ch items (qs @ [?q]) w2 = (Inr qs', w')"
    by (auto simp: queue_of_def Let_def split: sum.splits prod.splits)
  from invoke_Inr [OF w1] bind_routing_keys_Inr [OF w2] Cons.IH [OF rest] item
  show ?case by (simp add: queue_calls_def)
qed

lemma declare_queues_returns:
  "\<forall>h c. \<not> cl h c \<Longrightarrow> \<exists>qs' w'. declare_queues cl ex ch items qs w = (Inr qs', w')"
proof (induction items arbitrary: qs w)
  case Nil
  show ?case by simp
next
  case (Cons item items)
  obtain queue_name routing_keys where item: "item = (queue_name, routing_keys)"
    by (cases item)
  let ?q = "queue_of ex ch queue_name"
  let ?w1 = "w\<lparr>calls := calls w @ [Queue_declare ?q]\<rparr>"
  have w1: "invoke cl (Queue_declare ?q) w = Inr ?w1"
    using Cons.prems by (intro invoke_ok) simp
  from bind_routing_keys_returns [OF Cons.prems] obtain w2 where
    w2: "bind_routing_keys cl ?q ex routing_keys ?w1 = (Inr (), w2)" by blast
  from Cons.IH [OF Cons.prems] obtain qs' w' where
    rest: "declare_queues cl ex ch items (qs @ [?q]) w2 = (Inr qs', w')" by blast
  have "declare_queues cl ex ch (item # items) qs w = (Inr qs', w')"
    unfolding item
    by (simp add: Let_def w1 [unfolded queue_of_def] w2 [unfolded queue_of_def]
        rest [unfolded queue_of_def])
  then show ?case by blast
qed

lemma get_consumers_Inr:
  assumes "get_consumers cl ch self w = (Inr cs, w')"
  shows "\<exists>cfg ex. mq_config self = Some cfg \<and> BaseConsumer.exchange self = Some ex
     \<and> cs = [the_consumer ex ch cfg w]
     \<and> calls w' = calls w @ Exchange_declare ex ch # concat (map (queue_calls ex ch) (MqConfig.queues cfg))
          @ [Consumer_init (the_consumer ex ch cfg w), Consumer_qos (next_ref w) 1 True]
     \<and> next_ref w' = Suc (next_ref w)"
proof -
  from assms obtain cfg where cfg: "mq_config self = Some cfg"
    by (auto simp: get_consumers_def split: option.splits)
  from assms cfg obtain ex where ex: "BaseConsumer.exchange self = Some ex"
    by (auto simp: get_consumers_def split: option.splits)
  from assms cfg ex obtain w1 where w1: "invoke cl (Exchange_declare ex ch) w = Inr w1"
    by (auto simp: get_consumers_def split: sum.splits)
  from assms cfg ex w1 obtain qs w2 where
    w2: "declare_queues cl ex ch (MqConfig.queues cfg) [] w1 = (Inr qs, w2)"
    by (auto simp: get_consumers_def split: sum.splits prod.splits)
  let ?c = "\<lparr>Consumer.ident = next_ref w2, Consumer.queues = qs,
             callbacks = [Self_callback], auto_declare = False\<rparr>"
  let ?w3 = "w2\<lparr>next_ref := Suc (next_ref w2)\<rparr>"
  from assms cfg ex w1 w2 obtain w4 where w4: "invoke cl (Consumer_init ?c) ?w3 = Inr w4"
    by (auto simp: get_consumers_def new_ref_def Let_def split: sum.splits)
  from assms cfg ex w1 w2 w4 have w5: "invoke cl (Consumer_qos (next_ref w2) 1 True) w4 = Inr w'"
    and cs: "cs = [?c]"
    by (auto simp: get_consumers_def new_ref_def Let_def split: sum.splits)
  from invoke_Inr [OF w1] declare_queues_Inr [OF w2] invoke_Inr [OF w4] invoke_Inr [OF w5] cs cfg ex
  show ?thesis by (simp add: the_consumer_def)
qed

lemma get_consumers_returns:
  assumes "mq_config self = Some cfg" and "BaseConsumer.exchange self = Some ex"
    and "\<forall>h c. \<not> cl h c"
  shows "\<exists>cs w'. get_consumers cl ch self w = (Inr cs, w')"
proof -
  have ok: "\<And>c w. invoke cl c w = Inr (w\<lparr>calls := calls w @ [c]\<rparr>)"
    using assms(3) by (intro invoke_ok) simp
  from declare_queues_returns [OF assms(3)] obtain qs w2 where
    "declare_queues cl ex ch (MqConfig.queues cfg) [] (w\<lparr>calls := calls w @ [Exchange_declare ex ch]\<rparr>)
       = (Inr qs, w2)" by blast
  with assms(1,2) show ?thesis
    by (simp add: get_consumers_def ok new_ref_def Let_def)
qed


lemma calls_sinceI: "calls w' = calls w @ cs \<Longrightarrow> calls_since w w' = cs"
  by (simp add: calls_since_def)

lemma declared_bindings_Cons:
  "declared_bindings (c # cs) = declared_binding c @ declared_bindings cs"
  by (simp add: declared_bindings_def)

lemma declared_queues_Cons: "declared_queues (c # cs) = declared_queue c @ declared_queues cs"
  by (simp add: declared_queues_def)

lemma created_consumers_Cons:
  "created_consumers (c # cs) = created_consumer c @ created_consumers cs"
  by (simp add: created_consumers_def)

lemma qos_settings_Cons: "qos_settings (c # cs) = qos_setting c @ qos_settings cs"
  by (simp add: qos_settings_def)

lemma declared_bindings_append:
  "declared_bindings (xs @ ys) = declared_bindings xs @ declared_bindings ys"
  by (simp add: declared_bindings_def)

lemma declared_queues_append:
  "declared_queues (xs @ ys) = declared_queues xs @ declared_queues ys"
  by (simp add: declared_queues_def)

lemma created_consumers_append:
  "created_consumers (xs @ ys) = created_consumers xs @ created_consumers ys"
  by (simp add: created_consumers_def)

lemma qos_settings_append:
  "qos_settings (xs @ ys) = qos_settings xs @ qos_settings ys"
  by (simp add: qos_settings_def)

lemma observe_Nil:
  "declared_bindings [] = []" "declared_queues [] = []" "created_consumers [] = []"
  "qos_settings [] = []"
  by (simp_all add: declared_bindings_def declared_queues_def created_consumers_def
      qos_settings_def)

lemma observe_binds:
  "declared_bindings (map (Queue_bind_to q ex) rks) = map (\<lambda>rk. (q, ex, rk)) rks"
  "declared_queues (map (Queue_bind_to q ex) rks) = []"
  "created_consumers (map (Queue_bind_to q ex) rks) = []"
  "qos_settings (map (Queue_bind_to q ex) rks) = []"
  by (induction rks)
    (simp_all add: observe_Nil declared_bindings_Cons declared_queues_Cons
      created_consumers_Cons qos_settings_Cons)

lemma observe_queue_calls:
  "declared_bindings (queue_calls ex ch (q, rks)) = map (\<lambda>rk. (queue_of ex ch q, ex, rk)) rks"
  "declared_queues (queue_calls ex ch (q, rks)) = [queue_of ex ch q]"
  "created_consumers (queue_calls ex ch (q, rks)) = []"
  "qos_settings (queue_calls ex ch (q, rks)) = []"
  by (simp_all add: queue_calls_def observe_binds declared_bindings_Cons declared_queues_Cons
      created_consumers_Cons qos_settings_Cons)

lemma listed_pairs_Cons:
  "listed_pairs ((q, rks) # items) = map (Pair q) rks @ listed_pairs items"
  by (simp add: listed_pairs_def)

lemma declared_bindings_queue_calls:
  "declared_bindings (concat (map (queue_calls ex ch) items)) =
     map (\<lambda>(queue_name, rk). (queue_of ex ch queue_name, ex, rk)) (listed_pairs items)"
proof (induction items)
  case Nil
  show ?case by (simp add: observe_Nil listed_pairs_def)
next
  case (Cons item items)
  obtain q rks where item: "item = (q, rks)" by (cases item)
  have "map (\<lambda>(queue_name, rk). (queue_of ex ch queue_name, ex, rk)) (map (Pair q) rks) =
      map (\<lambda>rk. (queue_of ex ch q, ex, rk)) rks"
    by simp
  then show ?case
    by (simp add: item declared_bindings_append observe_queue_calls listed_pairs_Cons Cons.IH
        del: map_map)
qed

lemma declared_queues_queue_calls:
  "declared_queues (concat (map (queue_calls ex ch) items)) = map (queue_of ex ch) (map fst items)"
proof (induction items)
  case Nil
  show ?case by (simp add: observe_Nil)
next
  case (Cons item items)
  obtain q rks where item: "item = (q, rks)" by (cases item)
  show ?case
    by (simp add: item declared_queues_append observe_queue_calls Cons.IH)
qed

lemma created_consumers_queue_calls:
  "created_consumers (concat (map (queue_calls ex ch) items)) = []"
proof (induction items)
  case Nil
  show ?case by (simp add: observe_Nil)
next
  case (Cons item items)
  obtain q rks where item: "item = (q, rks)" by (cases item)
  show ?case
    by (simp add: item created_consumers_append observe_queue_calls Cons.IH)
qed

lemma qos_settings_queue_calls:
  "qos_settings (concat (map (queue_calls ex ch) items)) = []"
proof (induction items)
  case Nil
  show ?case by (simp add: observe_Nil)
next
  case (Cons item items)
  obtain q rks where item: "item = (q, rks)" by (cases item)
  show ?case
    by (simp add: item qos_settings_append observe_queue_calls Cons.IH)
qed

lemma listed_pairs_fst: "(q, rk) \<in> set (listed_pairs items) \<Longrightarrow> q \<in> fst ` set items"
  by (force simp: listed_pairs_def)

lemma distinct_listed_pairs: "valid_queues items \<Longrightarrow> distinct (listed_pairs items)"
proof (induction items)
  case Nil
  show ?case by (simp add: listed_pairs_def)
next
  case (Cons item items)
  obtain q rks where item: "item = (q, rks)" by (cases item)
  from Cons.prems item have q: "q \<notin> fst ` set items" and rks: "distinct rks"
    and rest: "valid_queues items"
    by (auto simp: valid_queues_def)
  have split: "listed_pairs (item # items) = map (Pair q) rks @ listed_pairs items"
    by (simp add: listed_pairs_def item)
  have "distinct (map (Pair q) rks)"
    using rks by (simp add: distinct_map inj_on_def)
  moreover have "set (map (Pair q) rks) \<inter> set (listed_pairs items) = {}"
    using q listed_pairs_fst [of q _ items] by auto
  ultimately show ?case
    using Cons.IH [OF rest] by (simp add: split)
qed

lemma distinct_bindings_of_pairs:
  assumes "distinct ps"
  shows "distinct (map (\<lambda>(queue_name, rk). (queue_of ex ch queue_name, ex, rk)) ps)"
proof -
  have "inj (\<lambda>(queue_name, rk). (queue_of ex ch queue_name, ex, rk))"
    by (auto simp: inj_on_def queue_of_def)
  then have "inj_on (\<lambda>(queue_name, rk). (queue_of ex ch queue_name, ex, rk)) (set ps)"
    by (rule inj_on_subset) simp
  with assms show ?thesis
    by (simp add: distinct_map)
qed

text \<open>
  C3. For every valid queue configuration, a run of \<^verbatim>\<open>get_consumers\<close> that returns has
  declared each configured queue, durable, and has declared exactly the bindings of the
  listed pairs of queue and routing key, between that queue and the configured exchange:
  none is skipped and none is declared twice.  On a live instance, with a client that
  raises nowhere, the run returns.
\<close>

theorem get_consumers_binds_each_pair_once:
  "(get_consumers cl ch self w = (Inr cs, w') \<and> mq_config self = Some cfg
      \<and> valid_queues (MqConfig.queues cfg) \<longrightarrow>
      (\<exists>ex. BaseConsumer.exchange self = Some ex
         \<and> declared_queues (calls_since w w') = map (queue_of ex ch) (map fst (MqConfig.queues cfg))
         \<and> list_all Queue.durable (declared_queues (calls_since w w'))
         \<and> declared_bindings (calls_since w w') =
             map (\<lambda>(queue_name, rk). (queue_of ex ch queue_name, ex, rk))
               (listed_pairs (MqConfig.queues cfg))
         \<and> distinct (declared_bindings (calls_since w w'))))
   \<and> (mq_config self = Some cfg \<and> BaseConsumer.exchange self = Some ex \<and> (\<forall>h c. \<not> cl h c) \<longrightarrow>
        (\<exists>cs w'. get_consumers cl ch self w = (Inr cs, w')))"
proof (intro conjI impI)
  assume a: "get_consumers cl ch self w = (Inr cs, w') \<and> mq_config self = Some cfg
      \<and> valid_queues (MqConfig.queues cfg)"
  from get_consumers_Inr [of cl ch self w cs w'] a obtain ex where
    ex: "BaseConsumer.exchange self = Some ex"
    and calls: "calls w' = calls w @ Exchange_declare ex ch
          # concat (map (queue_calls ex ch) (MqConfig.queues cfg))
          @ [Consumer_init (the_consumer ex ch cfg w), Consumer_qos (next_ref w) 1 True]"
    by auto
  let ?new = "Exchange_declare ex ch # concat (map (queue_calls ex ch) (MqConfig.queues cfg))
          @ [Consumer_init (the_consumer ex ch cfg w), Consumer_qos (next_ref w) 1 True]"
  have since: "calls_since w w' = ?new"
    using calls by (rule calls_sinceI)
  have "declared_queues ?new = declared_queues (concat (map (queue_calls ex ch) (MqConfig.queues cfg)))"
    by (simp add: declared_queues_Cons declared_queues_append observe_Nil)
  then have dq: "declared_queues ?new = map (queue_of ex ch) (map fst (MqConfig.queues cfg))"
    by (simp only: declared_queues_queue_calls)
  have "declared_bindings ?new = declared_bindings (concat (map (queue_calls ex ch) (MqConfig.queues cfg)))"
    by (simp add: declared_bindings_Cons declared_bindings_append observe_Nil)
  then have db: "declared_bindings ?new =
      map (\<lambda>(queue_name, rk). (queue_of ex ch queue_name, ex, rk)) (listed_pairs (MqConfig.queues cfg))"
    by (simp only: declared_bindings_queue_calls)
  have durable: "list_all Queue.durable (map (queue_of ex ch) (map fst (MqConfig.queues cfg)))"
    by (simp add: list_all_iff queue_of_def)
  have dist: "distinct (map (\<lambda>(queue_name, rk). (queue_of ex ch queue_name, ex, rk))
      (listed_pairs (MqConfig.queues cfg)))"
    using a by (intro distinct_bindings_of_pairs distinct_listed_pairs) simp
  show "\<exists>ex. BaseConsumer.exchange self = Some ex
         \<and> declared_queues (calls_since w w') = map (queue_of ex ch) (map fst (MqConfig.queues cfg))
         \<and> list_all Queue.durable (declared_queues (calls_since w w'))
         \<and> declared_bindings (calls_since w w') =
             map (\<lambda>(queue_name, rk). (queue_of ex ch queue_name, ex, rk))
               (listed_pairs (MqConfig.queues cfg))
         \<and> distinct (declared_bindings (calls_since w w'))"
    using ex dq db durable dist by (simp only: since) blast
next
  assume "mq_config self = Some cfg \<and> BaseConsumer.exchange self = Some ex \<and> (\<forall>h c. \<not> cl h c)"
  then show "\<exists>cs w'. get_consumers cl ch self w = (Inr cs, w')"
    using get_consumers_returns [of self cfg ex cl ch w] by blast
qed

text \<open>
  C4. A run of \<^verbatim>\<open>get_consumers\<close> that returns has created exactly one consumer, which it
  returns alone: over all the declared queues, with auto-declare disabled, and with one
  prefetch setting, of count 1 and applied globally, as the last call.  On a live instance,
  with a client that raises nowhere, the run returns.
\<close>

theorem get_consumers_one_consumer:
  "(get_consumers cl ch self w = (Inr cs, w') \<longrightarrow>
      (\<exists>c. cs = [c]
         \<and> created_consumers (calls_since w w') = [c]
         \<and> Consumer.queues c = declared_queues (calls_since w w')
         \<and> \<not> auto_declare c
         \<and> callbacks c = [Self_callback]
         \<and> qos_settings (calls_since w w') = [(Consumer.ident c, 1, True)]
         \<and> (\<exists>before. calls_since w w' =
               before @ [Consumer_init c, Consumer_qos (Consumer.ident c) 1 True])))
   \<and> (mq_config self = Some cfg \<and> BaseConsumer.exchange self = Some ex \<and> (\<forall>h c. \<not> cl h c) \<longrightarrow>
        (\<exists>cs w'. get_consumers cl ch self w = (Inr cs, w')))"
proof (intro conjI impI)
  assume a: "get_consumers cl ch self w = (Inr cs, w')"
  from get_consumers_Inr [OF a] obtain cfg ex where
    cs: "cs = [the_consumer ex ch cfg w]"
    and calls: "calls w' = calls w @ Exchange_declare ex ch
          # concat (map (queue_calls ex ch) (MqConfig.queues cfg))
          @ [Consumer_init (the_consumer ex ch cfg w), Consumer_qos (next_ref w) 1 True]"
    by auto
  let ?c = "the_consumer ex ch cfg w"
  let ?mid = "concat (map (queue_calls ex ch) (MqConfig.queues cfg))"
  let ?new = "Exchange_declare ex ch # ?mid @ [Consumer_init ?c, Consumer_qos (next_ref w) 1 True]"
  have since: "calls_since w w' = ?new"
    using calls by (rule calls_sinceI)
  have new: "?new = [Exchange_declare ex ch] @ ?mid @ [Consumer_init ?c, Consumer_qos (next_ref w) 1 True]"
    by simp
  have cc: "created_consumers ?new = [?c]"
    unfolding new created_consumers_append created_consumers_queue_calls
    by (simp add: created_consumers_Cons observe_Nil)
  have dq: "declared_queues ?new = Consumer.queues ?c"
    unfolding new declared_queues_append declared_queues_queue_calls
    by (simp add: declared_queues_Cons observe_Nil the_consumer_def)
  have qs: "qos_settings ?new = [(Consumer.ident ?c, 1, True)]"
    unfolding new qos_settings_append qos_settings_queue_calls
    by (simp add: qos_settings_Cons observe_Nil the_consumer_def)
  have tail: "?new = (Exchange_declare ex ch # ?mid) @ [Consumer_init ?c, Consumer_qos (Consumer.ident ?c) 1 True]"
    by (simp add: the_consumer_def)
  have props: "\<not> auto_declare ?c" "callbacks ?c = [Self_callback]"
    by (simp_all add: the_consumer_def)
  have "cs = [?c]
         \<and> created_consumers ?new = [?c]
         \<and> Consumer.queues ?c = declared_queues ?new
         \<and> \<not> auto_declare ?c
         \<and> callbacks ?c = [Self_callback]
         \<and> qos_settings ?new = [(Consumer.ident ?c, 1, True)]
         \<and> (\<exists>before. ?new = before @ [Consumer_init ?c, Consumer_qos (Consumer.ident ?c) 1 True])"
    using cs cc dq qs props tail by (intro conjI exI [of _ "Exchange_declare ex ch # ?mid"]) simp_all
  then show "\<exists>c. cs = [c]
         \<and> created_consumers (calls_since w w') = [c]
         \<and> Consumer.queues c = declared_queues (calls_since w w')
         \<and> \<not> auto_declare c
         \<and> callbacks c = [Self_callback]
         \<and> qos_settings (calls_since w w') = [(Consumer.ident c, 1, True)]
         \<and> (\<exists>before. calls_since w w' =
               before @ [Consumer_init c, Consumer_qos (Consumer.ident c) 1 True])"
    unfolding since by (rule exI [of _ ?c])
next
  assume "mq_config self = Some cfg \<and> BaseConsumer.exchange self = Some ex \<and> (\<forall>h c. \<not> cl h c)"
  then show "\<exists>cs w'. get_consumers cl ch self w = (Inr cs, w')"
    using get_consumers_returns [of self cfg ex cl ch w] by blast
qed

subsection \<open>The example instance\<close>

lemma example_consumer_live:
  "mq_config example_consumer = Some example_config"
  "BaseConsumer.exchange example_consumer = Some example_exchange"
  by (simp_all add: example_consumer_def BaseConsumer_init_def example_config_def
      example_exchange_def)

lemma reliable_client_never_raises: "\<forall>h c. \<not> reliable_client h c"
  by (simp add: reliable_client_def)

lemma valid_example_queues: "valid_queues (MqConfig.queues example_config)"
  by (simp add: valid_queues_def example_config_def)

lemma listed_example_pairs:
  "listed_pairs (MqConfig.queues example_config) =
     [(''harvester'', ''harvest.start.twitter''), (''harvester'', ''harvest.stop.twitter''),
      (''exporter'', ''export.start.#'')]"
  by (simp add: listed_pairs_def example_config_def)

theorem get_consumers_binds_each_pair_once_witness:
  "\<exists>cs w'. get_consumers reliable_client 0 example_consumer initial_world = (Inr cs, w')
     \<and> declared_bindings (calls_since initial_world w') =
         [(queue_of example_exchange 0 ''harvester'', example_exchange, ''harvest.start.twitter''),
          (queue_of example_exchange 0 ''harvester'', example_exchange, ''harvest.stop.twitter''),
          (queue_of example_exchange 0 ''exporter'', example_exchange, ''export.start.#'')]
     \<and> distinct (declared_bindings (calls_since initial_world w'))"
proof -
  from get_consumers_binds_each_pair_once
         [of reliable_client 0 example_consumer initial_world _ _ example_config example_exchange]
       example_consumer_live reliable_client_never_raises
  obtain cs w' where
    run: "get_consumers reliable_client 0 example_consumer initial_world = (Inr cs, w')"
    by blast
  from get_consumers_binds_each_pair_once
         [of reliable_client 0 example_consumer initial_world cs w' example_config]
       run example_consumer_live valid_example_queues
  have "declared_bindings (calls_since initial_world w') =
          map (\<lambda>(queue_name, rk). (queue_of example_exchange 0 queue_name, example_exchange, rk))
            (listed_pairs (MqConfig.queues example_config))"
    and "distinct (declared_bindings (calls_since initial_world w'))"
    by auto
  with run show ?thesis
    by (simp add: listed_example_pairs)
qed

theorem get_consumers_one_consumer_witness:
  "\<exists>c w'. get_consumers reliable_client 0 example_consumer initial_world = (Inr [c], w')
     \<and> created_consumers (calls_since initial_world w') = [c]
     \<and> \<not> auto_declare c
     \<and> qos_settings (calls_since initial_world w') = [(Consumer.ident c, 1, True)]"
proof -
  from get_consumers_one_consumer
         [of reliable_client 0 example_consumer initial_world _ _ example_config example_exchange]
       example_consumer_live reliable_client_never_raises
  obtain cs w' where
    run: "get_consumers reliable_client 0 example_consumer initial_world = (Inr cs, w')"
    by blast
  from get_consumers_one_consumer [of reliable_client 0 example_consumer initial_world cs w'] run
  obtain c where "cs = [c]" "created_consumers (calls_since initial_world w') = [c]"
    "\<not> auto_declare c" "qos_settings (calls_since initial_world w') = [(Consumer.ident c, 1, True)]"
    by blast
  with run show ?thesis by blast
qed

subsection \<open>Construction\<close>

text \<open>
  C6. When the configuration object is absent, or its host, its username or its password
  is absent or empty, the constructed \<^verbatim>\<open>BaseConsumer\<close> is inert: its connection and its
  exchange are both \<open>None\<close>.
\<close>

theorem BaseConsumer_init_inert:
  "cfg = None \<or> (\<exists>c. cfg = Some c
      \<and> (\<not> truthy (host c) \<or> \<not> truthy (username c) \<or> \<not> truthy (MqConfig.password c))) \<Longrightarrow>
   connection (BaseConsumer_init cfg :: 'm BaseConsumer) = None
   \<and> BaseConsumer.exchange (BaseConsumer_init cfg :: 'm BaseConsumer) = None"
  by (auto simp: BaseConsumer_init_def)

theorem BaseConsumer_init_inert_witness:
  "connection (BaseConsumer_init (Some (example_config\<lparr>host := None\<rparr>)) :: string BaseConsumer) = None
   \<and> BaseConsumer.exchange
       (BaseConsumer_init (Some (example_config\<lparr>host := None\<rparr>)) :: string BaseConsumer) = None
   \<and> connection
       (BaseConsumer_init (Some (example_config\<lparr>MqConfig.password := Some ''''\<rparr>))
          :: string BaseConsumer) = None
   \<and> BaseConsumer.exchange (BaseConsumer_init None :: string BaseConsumer) = None"
proof -
  have absent: "\<not> truthy (host (example_config\<lparr>host := None\<rparr>))"
    and empty: "\<not> truthy (MqConfig.password (example_config\<lparr>MqConfig.password := Some ''''\<rparr>))"
    by simp_all
  from absent empty
    BaseConsumer_init_inert [where ?'m = string, of "Some (example_config\<lparr>host := None\<rparr>)"]
    BaseConsumer_init_inert [where ?'m = string,
      of "Some (example_config\<lparr>MqConfig.password := Some ''''\<rparr>)"]
    BaseConsumer_init_inert [where ?'m = string, of None]
  show ?thesis by simp
qed

subsection \<open>Startup without a configuration\<close>

text \<open>
  C7. \<^verbatim>\<open>get_consumers\<close> on a consumer without a configuration object fails with an
  assertion error, whatever the client, and before any call into the client: the world is
  unchanged.
\<close>

theorem get_consumers_asserts_config:
  "mq_config self = None \<Longrightarrow> get_consumers cl ch self w = (Inl AssertionError, w)"
  by (simp add: get_consumers_def)

theorem get_consumers_asserts_config_witness:
  "get_consumers reliable_client 0 (BaseConsumer_init None :: string BaseConsumer) initial_world
     = (Inl AssertionError, initial_world)"
proof -
  have "mq_config (BaseConsumer_init None :: string BaseConsumer) = None"
    by (simp add: BaseConsumer_init_def)
  then show ?thesis
    by (rule get_consumers_asserts_config)
qed

subsection \<open>Delivery of a message\<close>

text \<open>
  C2. For a delivered message, \<^verbatim>\<open>_callback\<close> stores the routing key of the delivery
  metadata and the message in the consumer, then acknowledges the message, and only then
  runs the hook: the hook starts from the consumer with both stored and from the world in
  which the acknowledgment is the last call, so a hook that fails does so on an acknowledged
  message.  When the acknowledgment raises, both are stored already and the hook is not
  run; without a routing key in the metadata nothing is stored, acknowledged or run.
\<close>

theorem callback_acknowledges_before_hook:
  "(delivery_info message_obj ''routing_key'' = Some rk
      \<and> \<not> cl (calls w) (Message_ack (delivery_tag message_obj)) \<longrightarrow>
      callback cl hook msg message_obj self w =
        hook (self\<lparr>routing_key := Some rk, BaseConsumer.message := Some msg\<rparr>)
             (w\<lparr>calls := calls w @ [Message_ack (delivery_tag message_obj)]\<rparr>))
   \<and> (delivery_info message_obj ''routing_key'' = Some rk
      \<and> cl (calls w) (Message_ack (delivery_tag message_obj)) \<longrightarrow>
      callback cl hook msg message_obj self w =
        (Inl ClientError, self\<lparr>routing_key := Some rk, BaseConsumer.message := Some msg\<rparr>, w))
   \<and> (delivery_info message_obj ''routing_key'' = None \<longrightarrow>
      callback cl hook msg message_obj self w = (Inl KeyError, self, w))"
  by (simp add: callback_def invoke_def Let_def)

theorem callback_acknowledges_before_hook_witness:
  "callback reliable_client raising_hook ''payload'' example_message example_consumer initial_world =
     (Inl TypeError,
      example_consumer\<lparr>routing_key := Some ''harvest.start.twitter'',
                       BaseConsumer.message := Some ''payload''\<rparr>,
      initial_world\<lparr>calls := [Message_ack 7]\<rparr>)"
  using callback_acknowledges_before_hook
          [of example_message "''harvest.start.twitter''" reliable_client initial_world
              raising_hook "''payload''" example_consumer]
  by (simp add: example_message_def reliable_client_def initial_world_def raising_hook_def)

subsection \<open>The publish connection\<close>

text \<open>
  C5. \<^verbatim>\<open>on_consume_end\<close> without a publish connection closes nothing and changes
  nothing.  With one, whose \<^verbatim>\<open>close()\<close> returns, it closes that connection once and
  clears the cached reference.  After any call that returned, the reference is cleared and
  a further call closes nothing and changes nothing.
\<close>

theorem on_consume_end_closes_once:
  "(producer_connection_attr self = None \<longrightarrow>
      on_consume_end cl conn ch self w = (Inr (), self, w))
   \<and> (producer_connection_attr self = Some r \<and> \<not> cl (calls w) (Connection_close r) \<longrightarrow>
        on_consume_end cl conn ch self w =
          (Inr (), self\<lparr>producer_connection_attr := None\<rparr>,
           w\<lparr>calls := calls w @ [Connection_close r]\<rparr>))
   \<and> (on_consume_end cl conn ch self w = (Inr (), self', w') \<longrightarrow>
        producer_connection_attr self' = None
        \<and> on_consume_end cl' conn' ch' self' w' = (Inr (), self', w'))"
  by (auto simp: on_consume_end_def invoke_def split: option.splits if_splits)

theorem on_consume_end_closes_once_witness:
  "on_consume_end reliable_client None 0 (example_consumer\<lparr>producer_connection_attr := Some 3\<rparr>)
     initial_world =
     (Inr (), example_consumer\<lparr>producer_connection_attr := None\<rparr>,
      initial_world\<lparr>calls := [Connection_close 3]\<rparr>)
   \<and> on_consume_end reliable_client None 0 (example_consumer\<lparr>producer_connection_attr := None\<rparr>)
     (initial_world\<lparr>calls := [Connection_close 3]\<rparr>) =
     (Inr (), example_consumer\<lparr>producer_connection_attr := None\<rparr>,
      initial_world\<lparr>calls := [Connection_close 3]\<rparr>)"
proof -
  have first: "on_consume_end reliable_client None 0
      (example_consumer\<lparr>producer_connection_attr := Some 3\<rparr>) initial_world =
     (Inr (), example_consumer\<lparr>producer_connection_attr := None\<rparr>,
      initial_world\<lparr>calls := [Connection_close 3]\<rparr>)"
    using on_consume_end_closes_once
      [of "example_consumer\<lparr>producer_connection_attr := Some 3\<rparr>" reliable_client None 0
          initial_world 3]
    by (simp add: reliable_client_def initial_world_def)
  with on_consume_end_closes_once
      [of "example_consumer\<lparr>producer_connection_attr := Some 3\<rparr>" reliable_client None 0
          initial_world 3 "example_consumer\<lparr>producer_connection_attr := None\<rparr>"
          "initial_world\<lparr>calls := [Connection_close 3]\<rparr>" reliable_client None 0]
  show ?thesis by simp
qed

lemma producer_connection_cached:
  "producer_connection_attr self = Some r \<Longrightarrow> producer_connection cl self w = (Inr r, self, w)"
  by (simp add: producer_connection_def)

lemma producer_connection_first:
  assumes "producer_connection_attr self = None"
    and "producer_connection cl self w = (Inr r, self', w')"
  shows "\<exists>c. connection self = Some c \<and> r = next_ref w
           \<and> calls w' = calls w @ [Connection_clone c r, Connection_ensure_connection r]
           \<and> next_ref w' = Suc (next_ref w)
           \<and> self' = self\<lparr>producer_connection_attr := Some r\<rparr>"
  using assms
  by (auto simp: producer_connection_def new_ref_def invoke_def
      split: option.splits sum.splits if_splits)

lemma producer_connection_Inr:
  assumes "producer_connection cl self w = (Inr r, self', w')"
  shows "producer_connection_attr self' = Some r"
proof (cases "producer_connection_attr self")
  case None
  from producer_connection_first [OF None assms] show ?thesis by auto
next
  case (Some r')
  with assms show ?thesis by (simp add: producer_connection_def)
qed

lemma producer_Inr:
  assumes "producer cl self w = (Inr p, self1, w1)"
  shows "\<exists>wa. producer_connection cl self w = (Inr (Producer.channel p), self1, wa)
           \<and> Producer.ident p = next_ref wa
           \<and> calls w1 = calls wa @ [Producer_init (Producer.ident p) (Producer.channel p)]
           \<and> next_ref w1 = Suc (next_ref wa)"
  using assms
  by (auto simp: producer_def new_ref_def invoke_def split: prod.splits sum.splits if_splits)

lemma producer_returns:
  assumes "\<forall>h c. \<not> cl h c"
    and "connection self \<noteq> None \<or> producer_connection_attr self \<noteq> None"
  shows "\<exists>p self1 w1. producer cl self w = (Inr p, self1, w1)"
  using assms
  by (auto simp: producer_def producer_connection_def new_ref_def invoke_def
      split: option.splits)

text \<open>
  C10. \<^verbatim>\<open>producer_connection\<close> returns the cached connection, with no call into the
  client, whenever one is cached; otherwise a successful access clones the consume
  connection into a fresh object, establishes it and caches it.  Two successive accesses of
  \<^verbatim>\<open>producer\<close> return two different producer objects over the same connection, the
  second access making no call but the construction of its producer.
  \<^verbatim>\<open>on_consume_end\<close> clears the cache.  On an instance with a connection, with a client
  that raises nowhere, an access of \<^verbatim>\<open>producer\<close> returns.
\<close>

theorem producer_new_connection_cached:
  "(producer_connection_attr self = Some r \<longrightarrow> producer_connection cl self w = (Inr r, self, w))
   \<and> (producer_connection_attr self = None \<and> producer_connection cl self w = (Inr r, self', w') \<longrightarrow>
        (\<exists>c. connection self = Some c \<and> r = next_ref w
              \<and> calls w' = calls w @ [Connection_clone c r, Connection_ensure_connection r])
        \<and> self' = self\<lparr>producer_connection_attr := Some r\<rparr>)
   \<and> (producer cl self w = (Inr p, self1, w1) \<and> producer cl' self1 w1 = (Inr p', self2, w2) \<longrightarrow>
        Producer.ident p \<noteq> Producer.ident p'
        \<and> Producer.channel p' = Producer.channel p
        \<and> producer_connection_attr self1 = Some (Producer.channel p)
        \<and> self2 = self1
        \<and> calls w2 = calls w1 @ [Producer_init (Producer.ident p') (Producer.channel p)])
   \<and> (on_consume_end cl conn ch self w = (Inr (), self', w') \<longrightarrow>
        producer_connection_attr self' = None)
   \<and> ((\<forall>h c. \<not> cl h c) \<and> connection self \<noteq> None \<longrightarrow>
        (\<exists>p self1 w1. producer cl self w = (Inr p, self1, w1)))"
proof (intro conjI impI)
  assume "producer_connection_attr self = Some r"
  then show "producer_connection cl self w = (Inr r, self, w)"
    by (rule producer_connection_cached)
next
  assume a: "producer_connection_attr self = None \<and> producer_connection cl self w = (Inr r, self', w')"
  then have n: "producer_connection_attr self = None"
    and run: "producer_connection cl self w = (Inr r, self', w')" by simp_all
  from producer_connection_first [OF n run]
  show "\<exists>c. connection self = Some c \<and> r = next_ref w
              \<and> calls w' = calls w @ [Connection_clone c r, Connection_ensure_connection r]"
    by blast
  from producer_connection_first [OF n run]
  show "self' = self\<lparr>producer_connection_attr := Some r\<rparr>" by blast
next
  assume a: "producer cl self w = (Inr p, self1, w1) \<and> producer cl' self1 w1 = (Inr p', self2, w2)"
  then have one: "producer cl self w = (Inr p, self1, w1)"
    and two: "producer cl' self1 w1 = (Inr p', self2, w2)" by simp_all
  from producer_Inr [OF one] obtain wa where
    pc: "producer_connection cl self w = (Inr (Producer.channel p), self1, wa)"
    and idp: "Producer.ident p = next_ref wa" and next1: "next_ref w1 = Suc (next_ref wa)"
    by blast
  from producer_connection_Inr [OF pc]
  have attr: "producer_connection_attr self1 = Some (Producer.channel p)" .
  from producer_Inr [OF two] obtain wb where
    pc': "producer_connection cl' self1 w1 = (Inr (Producer.channel p'), self2, wb)"
    and idp': "Producer.ident p' = next_ref wb"
    and calls2: "calls w2 = calls wb @ [Producer_init (Producer.ident p') (Producer.channel p')]"
    by blast
  from pc' producer_connection_cached [OF attr, of cl' w1]
  have same: "Producer.channel p' = Producer.channel p" "self2 = self1" "wb = w1"
    by simp_all
  show "Producer.ident p \<noteq> Producer.ident p'"
    using idp idp' next1 same by simp
  show "Producer.channel p' = Producer.channel p" by (rule same)
  show "producer_connection_attr self1 = Some (Producer.channel p)" by (rule attr)
  show "self2 = self1" by (rule same)
  show "calls w2 = calls w1 @ [Producer_init (Producer.ident p') (Producer.channel p)]"
    using calls2 same by simp
next
  assume "on_consume_end cl conn ch self w = (Inr (), self', w')"
  then show "producer_connection_attr self' = None"
    by (auto simp: on_consume_end_def split: option.splits sum.splits)
next
  assume "(\<forall>h c. \<not> cl h c) \<and> connection self \<noteq> None"
  then show "\<exists>p self1 w1. producer cl self w = (Inr p, self1, w1)"
    using producer_returns [of cl self w] by blast
qed

lemma example_first_producer:
  "producer reliable_client example_consumer initial_world =
     (Inr \<lparr>Producer.ident = 1, Producer.channel = 0\<rparr>,
      example_consumer\<lparr>producer_connection_attr := Some 0\<rparr>,
      \<lparr>calls = [Connection_clone example_connection 0, Connection_ensure_connection 0,
                Producer_init 1 0],
       next_ref = 2\<rparr>)"
  by (simp add: producer_def producer_connection_def new_ref_def invoke_def reliable_client_def
      initial_world_def example_consumer_def BaseConsumer_init_def example_config_def
      example_connection_def)

lemma example_second_producer:
  "producer reliable_client (example_consumer\<lparr>producer_connection_attr := Some 0\<rparr>)
     \<lparr>calls = [Connection_clone example_connection 0, Connection_ensure_connection 0,
               Producer_init 1 0],
      next_ref = 2\<rparr> =
     (Inr \<lparr>Producer.ident = 2, Producer.channel = 0\<rparr>,
      example_consumer\<lparr>producer_connection_attr := Some 0\<rparr>,
      \<lparr>calls = [Connection_clone example_connection 0, Connection_ensure_connection 0,
                Producer_init 1 0, Producer_init 2 0],
       next_ref = 3\<rparr>)"
  by (simp add: producer_def producer_connection_def new_ref_def invoke_def reliable_client_def)

theorem producer_new_connection_cached_witness:
  "\<exists>p s1 w1 p' s2 w2.
     producer reliable_client example_consumer initial_world = (Inr p, s1, w1)
     \<and> producer reliable_client s1 w1 = (Inr p', s2, w2)
     \<and> Producer.ident p \<noteq> Producer.ident p'
     \<and> Producer.channel p' = Producer.channel p
     \<and> producer_connection_attr s2 = Some (Producer.channel p)
     \<and> calls w2 = calls w1 @ [Producer_init (Producer.ident p') (Producer.channel p)]"
proof -
  let ?p = "\<lparr>Producer.ident = 1, Producer.channel = 0\<rparr>"
  let ?p' = "\<lparr>Producer.ident = 2, Producer.channel = 0\<rparr>"
  let ?s = "example_consumer\<lparr>producer_connection_attr := Some 0\<rparr>"
  let ?w1 = "\<lparr>calls = [Connection_clone example_connection 0, Connection_ensure_connection 0,
                Producer_init 1 0], next_ref = 2\<rparr>"
  let ?w2 = "\<lparr>calls = [Connection_clone example_connection 0, Connection_ensure_connection 0,
                Producer_init 1 0, Producer_init 2 0], next_ref = 3\<rparr>"
  from producer_new_connection_cached
         [where cl = reliable_client and self = example_consumer and w = initial_world
            and p = ?p and ?self1.0 = ?s and ?w1.0 = ?w1 and cl' = reliable_client
            and p' = ?p' and ?self2.0 = ?s and ?w2.0 = ?w2]
       example_first_producer example_second_producer
  have "Producer.ident ?p \<noteq> Producer.ident ?p'
        \<and> Producer.channel ?p' = Producer.channel ?p
        \<and> producer_connection_attr ?s = Some (Producer.channel ?p)
        \<and> ?s = ?s
        \<and> calls ?w2 = calls ?w1 @ [Producer_init (Producer.ident ?p') (Producer.channel ?p)]"
    by blast
  with example_first_producer example_second_producer show ?thesis
    by blast
qed

end
